theory Spec2Isabelle
  imports Main "HOL-Library.Char_ord" "HOL-Library.List_Lexorder"
begin

section \<open>Change detection for blog snapshots (diff\_analyzer.py, scraper.py)\<close>

text \<open>
  A shallow embedding of the class \<open>DiffAnalyzer\<close> of \<open>src/diff_analyzer.py\<close> and of
  the two methods of \<open>BlogScraper\<close> it calls (\<open>get_domain\<close>, \<open>get_previous_content\<close> of
  \<open>src/scraper.py\<close>).

  Python strings are \<open>string\<close>; one \<open>char\<close> stands for one character of the Python
  string (code points below 256). A Python dictionary with optional keys is a record of
  \<open>option\<close> fields; a dictionary that is iterated is an association list in insertion
  order.
\<close>

subsection \<open>Data model\<close>

text \<open>
  An article is the dictionary built by \<open>_extract_article_data\<close> and
  \<open>_extract_article_from_heading\<close>: each of the four keys may be absent.
\<close>

record article =
  title :: "string option"
  url :: "string option"
  date :: "string option"
  content :: "string option"

definition empty_article :: article where
  "empty_article = \<lparr>title = None, url = None, date = None, content = None\<rparr>"

text \<open>The \<open>diff_obj\<close> of \<open>_compare_versions\<close>; \<open>dict.get\<close> gives \<open>None\<close> for an absent key.\<close>

record changed_article =
  ca_title :: "string option"
  ca_url :: "string option"
  previous_content :: "string option"
  current_content :: "string option"

record diff_result =
  dr_url :: string
  domain :: string
  current_date :: string
  previous_date :: "string option"
  has_changes :: bool
  new_articles :: "article list"
  changed_articles :: "changed_article list"
  removed_articles :: "article list"

subsection \<open>Python dictionaries in insertion order\<close>

text \<open>
  \<open>d[k] = v\<close>: an existing key keeps its position and takes the new value, a new key is
  appended.
\<close>

fun dict_setitem :: "'k \<Rightarrow> 'v \<Rightarrow> ('k \<times> 'v) list \<Rightarrow> ('k \<times> 'v) list" where
  "dict_setitem k v [] = [(k, v)]"
| "dict_setitem k v ((k', v') # d) =
     (if k' = k then (k, v) # d else (k', v') # dict_setitem k v d)"

subsection \<open>The comparator (\_compare\_versions, lines 105 to 143)\<close>

text \<open>\<open>art.get('url', art.get('title', ''))\<close>\<close>

definition article_key :: "article \<Rightarrow> string" where
  "article_key art =
     (case url art of
        Some u \<Rightarrow> u
      | None \<Rightarrow> (case title art of Some t \<Rightarrow> t | None \<Rightarrow> ''''))"

text \<open>The same key read off a \<open>diff_obj\<close>, whose \<open>url\<close> and \<open>title\<close> are those of the current article.\<close>

definition changed_key :: "changed_article \<Rightarrow> string" where
  "changed_key c =
     (case ca_url c of
        Some u \<Rightarrow> u
      | None \<Rightarrow> (case ca_title c of Some t \<Rightarrow> t | None \<Rightarrow> ''''))"

text \<open>\<open>{art.get('url', art.get('title', '')): art for art in articles}\<close>\<close>

definition article_map :: "article list \<Rightarrow> (string \<times> article) list" where
  "article_map articles = foldl (\<lambda>d art. dict_setitem (article_key art) art d) [] articles"

definition diff_obj :: "article \<Rightarrow> article \<Rightarrow> changed_article" where
  "diff_obj curr_art prev_art =
     \<lparr>ca_title = title curr_art, ca_url = url curr_art,
      previous_content = content prev_art, current_content = content curr_art\<rparr>"

text \<open>
  The first loop (lines 115 to 126) over \<open>curr_map.items()\<close>, with the two lists it
  appends to as accumulators.
\<close>

fun find_new_and_changed ::
  "(string \<times> article) list \<Rightarrow> (string \<times> article) list \<Rightarrow>
   article list \<times> changed_article list \<Rightarrow> article list \<times> changed_article list" where
  "find_new_and_changed prev_map [] acc = acc"
| "find_new_and_changed prev_map ((key, curr_art) # items) (new, changed) =
     (case map_of prev_map key of
        None \<Rightarrow> find_new_and_changed prev_map items (new @ [curr_art], changed)
      | Some prev_art \<Rightarrow>
          if content curr_art \<noteq> content prev_art
          then find_new_and_changed prev_map items (new, changed @ [diff_obj curr_art prev_art])
          else find_new_and_changed prev_map items (new, changed))"

text \<open>The second loop (lines 129 to 131) over \<open>prev_map.items()\<close>.\<close>

fun find_removed ::
  "(string \<times> article) list \<Rightarrow> (string \<times> article) list \<Rightarrow> article list \<Rightarrow> article list" where
  "find_removed curr_map [] removed = removed"
| "find_removed curr_map ((key, prev_art) # items) removed =
     (case map_of curr_map key of
        None \<Rightarrow> find_removed curr_map items (removed @ [prev_art])
      | Some _ \<Rightarrow> find_removed curr_map items removed)"

text \<open>Lines 105 to 131: from the two article lists to the three classified lists.\<close>

definition compare_article_lists ::
  "article list \<Rightarrow> article list \<Rightarrow> article list \<times> changed_article list \<times> article list" where
  "compare_article_lists prev_articles curr_articles =
     (let prev_map = article_map prev_articles;
          curr_map = article_map curr_articles;
          (new, changed) = find_new_and_changed prev_map curr_map ([], []);
          removed = find_removed curr_map prev_map []
      in (new, changed, removed))"

text \<open>Lines 134 to 143: the result dictionary.\<close>

definition build_diff_result ::
  "string \<Rightarrow> string \<Rightarrow> string \<Rightarrow> string option \<Rightarrow>
   article list \<times> changed_article list \<times> article list \<Rightarrow> diff_result" where
  "build_diff_result u dmn current_date_str prev_date classified =
     (case classified of (new, changed, removed) \<Rightarrow>
        \<lparr>dr_url = u, domain = dmn, current_date = current_date_str, previous_date = prev_date,
         has_changes = (length new > 0 \<or> length changed > 0 \<or> length removed > 0),
         new_articles = new, changed_articles = changed, removed_articles = removed\<rparr>)"

subsection \<open>Strings\<close>

text \<open>
  \<open>str.isspace\<close> on one character: tab to carriage return, the four separators
  \<open>0x1C\<close> to \<open>0x1F\<close>, space, \<open>0x85\<close> and \<open>0xA0\<close>.
\<close>

definition isspace :: "char \<Rightarrow> bool" where
  "isspace c =
     (let n = (of_char c :: nat)
      in (9 \<le> n \<and> n \<le> 13) \<or> (28 \<le> n \<and> n \<le> 32) \<or> n = 133 \<or> n = 160)"

text \<open>\<open>s.strip()\<close>\<close>

definition strip :: "string \<Rightarrow> string" where
  "strip s = rev (dropWhile isspace (rev (dropWhile isspace s)))"

text \<open>\<open>sep.join(xs)\<close>\<close>

fun str_join :: "string \<Rightarrow> string list \<Rightarrow> string" where
  "str_join sep [] = []"
| "str_join sep [x] = x"
| "str_join sep (x # y # ys) = x @ sep @ str_join sep (y # ys)"

text \<open>\<open>sub in s\<close>\<close>

definition str_contains :: "string \<Rightarrow> string \<Rightarrow> bool" where
  "str_contains sub s = list_ex (\<lambda>i. take (length sub) (drop i s) = sub) [0..<Suc (length s)]"

text \<open>\<open>s.endswith(suffix)\<close>\<close>

definition endswith :: "string \<Rightarrow> string \<Rightarrow> bool" where
  "endswith s suffix = (length suffix \<le> length s \<and> drop (length s - length suffix) s = suffix)"

text \<open>
  \<open>s.replace(old, new)\<close> for a non-empty \<open>old\<close> (the only use has \<open>old = '.html'\<close>):
  every occurrence, left to right, without overlap.
\<close>

function str_replace :: "string \<Rightarrow> string \<Rightarrow> string \<Rightarrow> string" where
  "str_replace old new [] = []"
| "str_replace old new (c # cs) =
     (if old \<noteq> [] \<and> take (length old) (c # cs) = old
      then new @ str_replace old new (drop (length old) (c # cs))
      else c # str_replace old new cs)"
  by pat_completeness auto
termination
  by (relation "measure (\<lambda>(old, new, s). length s)") auto

definition newline :: string where
  "newline = [CHR 0x0A]"

subsection \<open>The parse tree of BeautifulSoup\<close>

text \<open>
  A node of the tree is a \<open>Tag\<close> with its name, the token list kept for its
  \<open>class\<close> attribute, its other attributes and its children, or a string: a
  \<open>NavigableString\<close> (text) or a \<open>Comment\<close> (which \<open>get_text\<close> leaves out).
\<close>

datatype node =
    Tag string "string list" "(string \<times> string) list" "node list"
  | NavigableString string
  | Comment string

text \<open>\<open>node.name\<close>: \<open>None\<close> on a string.\<close>

fun node_name :: "node \<Rightarrow> string option" where
  "node_name (Tag nm cls ats cs) = Some nm"
| "node_name (NavigableString s) = None"
| "node_name (Comment s) = None"

fun node_contents :: "node \<Rightarrow> node list" where
  "node_contents (Tag nm cls ats cs) = cs"
| "node_contents (NavigableString s) = []"
| "node_contents (Comment s) = []"

text \<open>
  Truth value of a node in \<open>while next_elem:\<close>: a \<open>Tag\<close> is always true, a string
  node is a Python string and is true when it is not empty.
\<close>

fun truthy :: "node \<Rightarrow> bool" where
  "truthy (Tag nm cls ats cs) = True"
| "truthy (NavigableString s) = (s \<noteq> [])"
| "truthy (Comment s) = (s \<noteq> [])"

text \<open>\<open>tag.has_attr(a)\<close> and \<open>tag[a]\<close> together: the value when the attribute is there.\<close>

fun get_attr :: "node \<Rightarrow> string \<Rightarrow> string option" where
  "get_attr (Tag nm cls ats cs) a = map_of ats a"
| "get_attr (NavigableString s) a = None"
| "get_attr (Comment s) a = None"

text \<open>All nodes below a node, in document order.\<close>

fun descendants :: "node \<Rightarrow> node list" where
  "descendants (Tag nm cls ats cs) = concat (map (\<lambda>c. c # descendants c) cs)"
| "descendants (NavigableString s) = []"
| "descendants (Comment s) = []"

text \<open>\<open>tag.get_text()\<close>: the text strings below the tag, concatenated in document order.\<close>

fun get_text :: "node \<Rightarrow> string" where
  "get_text (Tag nm cls ats cs) = concat (map get_text cs)"
| "get_text (NavigableString s) = s"
| "get_text (Comment s) = []"

text \<open>
  \<open>tag.string\<close>: the single string below a tag that has exactly one child, followed
  down through single children.
\<close>

fun node_string :: "node \<Rightarrow> string option" where
  "node_string (Tag nm cls ats [c]) = node_string c"
| "node_string (Tag nm cls ats cs) = None"
| "node_string (NavigableString s) = Some s"
| "node_string (Comment s) = Some s"

text \<open>
  An element in its place in the document: the node, its following siblings
  (\<open>next_sibling\<close> repeated) and the nodes that follow its whole subtree in document
  order. \<open>next_elements\<close> is its descendants and then those.
\<close>

record element =
  node :: node
  next_siblings :: "node list"
  following :: "node list"

definition next_elements :: "element \<Rightarrow> node list" where
  "next_elements e = descendants (node e) @ following e"

text \<open>Every node of a forest as an element, in document order.\<close>

function elements :: "node list \<Rightarrow> node list \<Rightarrow> element list" where
  "elements [] after = []"
| "elements (n # ns) after =
     (let after_n = concat (map (\<lambda>m. m # descendants m) ns) @ after
      in \<lparr>node = n, next_siblings = ns, following = after_n\<rparr>
           # elements (node_contents n) after_n @ elements ns after)"
  by pat_completeness auto
termination
proof (relation "measure (\<lambda>(ns, after). size_list size ns)")
  show "wf (measure (\<lambda>(ns, after). size_list size ns))" by simp
next
  fix n :: node and ns after :: "node list" and x
  show "((node_contents n, x), (n # ns, after)) \<in> measure (\<lambda>(ns, after). size_list size ns)"
    by (cases n) simp_all
next
  fix n :: node and ns after :: "node list" and x
  show "((ns, after), (n # ns, after)) \<in> measure (\<lambda>(ns, after). size_list size ns)"
    by simp
qed

subsection \<open>Searching the tree\<close>

text \<open>
  The simple selectors the source uses: a tag name (\<open>article\<close>), a class
  (\<open>.post\<close>), a substring of the class attribute (\<open>[class*="post"]\<close>, matched against
  the class tokens joined by one space) and the presence of an attribute
  (\<open>[datetime]\<close>). A selector is a comma-separated group of them and matches a tag
  that matches one of them.
\<close>

datatype simple_selector =
    TypeSel string
  | ClassSel string
  | ClassContains string
  | HasAttr string

fun matches_simple :: "simple_selector \<Rightarrow> node \<Rightarrow> bool" where
  "matches_simple (TypeSel t) (Tag nm cls ats cs) = (nm = t)"
| "matches_simple (ClassSel c) (Tag nm cls ats cs) = (c \<in> set cls)"
| "matches_simple (ClassContains sub) (Tag nm cls ats cs) = str_contains sub (str_join '' '' cls)"
| "matches_simple (HasAttr a) (Tag nm cls ats cs) = (map_of ats a \<noteq> None)"
| "matches_simple sel (NavigableString s) = False"
| "matches_simple sel (Comment s) = False"

definition matches :: "simple_selector list \<Rightarrow> node \<Rightarrow> bool" where
  "matches selector n = list_ex (\<lambda>sel. matches_simple sel n) selector"

text \<open>\<open>soup.select(selector)\<close> over all elements of the document, in document order.\<close>

definition select :: "simple_selector list \<Rightarrow> element list \<Rightarrow> element list" where
  "select selector soup = filter (\<lambda>e. matches selector (node e)) soup"

text \<open>
  \<open>element.select_one(selector)\<close>: the first element below \<open>element\<close>, in document
  order, that matches one of the selectors of the group.
\<close>

definition select_one :: "simple_selector list \<Rightarrow> element \<Rightarrow> element option" where
  "select_one selector e =
     List.find (\<lambda>d. matches selector (node d)) (elements (node_contents (node e)) (following e))"

text \<open>\<open>tag.find(nm)\<close> and \<open>tag.find_all(nm)\<close>: the tags of that name below \<open>tag\<close>.\<close>

definition find_tag :: "string \<Rightarrow> node \<Rightarrow> node option" where
  "find_tag nm n = List.find (\<lambda>d. node_name d = Some nm) (descendants n)"

definition find_all_tag :: "string \<Rightarrow> node \<Rightarrow> node list" where
  "find_all_tag nm n = filter (\<lambda>d. node_name d = Some nm) (descendants n)"

text \<open>\<open>tag.find('a', string=True)\<close>: the first \<open>a\<close> below \<open>tag\<close> whose \<open>.string\<close> is not \<open>None\<close>.\<close>

definition find_link_with_string :: "node \<Rightarrow> node option" where
  "find_link_with_string n =
     List.find (\<lambda>d. node_name d = Some ''a'' \<and> node_string d \<noteq> None) (descendants n)"

text \<open>
  \<open>tag.find_next(names)\<close>: the first tag after \<open>tag\<close> in document order (its own
  descendants first) whose name is one of \<open>names\<close>.
\<close>

definition find_next :: "string list \<Rightarrow> element \<Rightarrow> node option" where
  "find_next names e =
     List.find (\<lambda>d. case node_name d of None \<Rightarrow> False | Some nm \<Rightarrow> nm \<in> set names)
       (next_elements e)"

subsection \<open>Extraction from a container (\_extract\_article\_data)\<close>

definition title_selector :: "simple_selector list" where
  "title_selector =
     [TypeSel ''h1'', TypeSel ''h2'', TypeSel ''h3'', TypeSel ''h4'',
      ClassSel ''title'', ClassSel ''entry-title'']"

definition date_selector :: "simple_selector list" where
  "date_selector =
     [ClassSel ''date'', ClassSel ''time'', ClassSel ''entry-date'', ClassSel ''published'',
      TypeSel ''time'', HasAttr ''datetime'']"

definition content_selector :: "simple_selector list" where
  "content_selector =
     [ClassSel ''content'', ClassSel ''entry-content'', ClassSel ''description'',
      ClassSel ''summary'', TypeSel ''p'']"

text \<open>\<open>if link and link.has_attr('href'): article['url'] = link['href']\<close>\<close>

definition set_url_from :: "node option \<Rightarrow> article \<Rightarrow> article" where
  "set_url_from link art =
     (case link of
        None \<Rightarrow> art
      | Some l \<Rightarrow> (case get_attr l ''href'' of None \<Rightarrow> art | Some h \<Rightarrow> art\<lparr>url := Some h\<rparr>))"

text \<open>The date of an article from the date element found (lines 227 to 231 and 300 to 304).\<close>

definition set_date_from :: "node option \<Rightarrow> article \<Rightarrow> article" where
  "set_date_from date_elem art =
     (case date_elem of
        None \<Rightarrow> art
      | Some d \<Rightarrow>
          (case get_attr d ''datetime'' of
             Some v \<Rightarrow> art\<lparr>date := Some v\<rparr>
           | None \<Rightarrow> art\<lparr>date := Some (strip (get_text d))\<rparr>))"

definition extract_article_data :: "element \<Rightarrow> article" where
  "extract_article_data elem =
     (let art = empty_article;
          title_elem = select_one title_selector elem;
          art = (case title_elem of
                   None \<Rightarrow> art
                 | Some te \<Rightarrow>
                     set_url_from (find_tag ''a'' (node te))
                       (art\<lparr>title := Some (strip (get_text (node te)))\<rparr>));
          art = (if title art = None
                 then (case find_link_with_string (node elem) of
                         None \<Rightarrow> art
                       | Some link \<Rightarrow>
                           (case get_attr link ''href'' of
                              None \<Rightarrow> art\<lparr>title := Some (strip (get_text link))\<rparr>
                            | Some h \<Rightarrow> art\<lparr>title := Some (strip (get_text link)), url := Some h\<rparr>))
                 else art);
          date_elem = select_one date_selector elem;
          art = set_date_from (map_option node date_elem) art;
          content_elem = select_one content_selector elem;
          art = (case content_elem of
                   Some ce \<Rightarrow> art\<lparr>content := Some (strip (get_text (node ce)))\<rparr>
                 | None \<Rightarrow>
                     (case find_tag ''p'' (node elem) of
                        Some first_p \<Rightarrow>
                          art\<lparr>content :=
                            Some (str_join newline
                                    (map (\<lambda>p. strip (get_text p)) (find_all_tag ''p'' (node elem))))\<rparr>
                      | None \<Rightarrow> art));
          art = (if title art \<noteq> None \<and> content art = None
                 then (case select_one title_selector elem of
                         None \<Rightarrow> art
                       | Some te \<Rightarrow>
                           (case find_next [''p''] te of
                              None \<Rightarrow> art
                            | Some next_p \<Rightarrow> art\<lparr>content := Some (strip (get_text next_p))\<rparr>))
                 else art)
      in art)"

subsection \<open>Extraction from a heading\<close>

text \<open>\<open>_is_likely_article_title\<close>\<close>

definition is_likely_article_title :: "element \<Rightarrow> bool" where
  "is_likely_article_title heading =
     (let text = strip (get_text (node heading))
      in if length text < 10 \<or> length text > 200 then False
         else if find_tag ''a'' (node heading) \<noteq> None then True
         else if find_next [''p''] heading \<noteq> None then True
         else False)"

text \<open>
  The \<open>while next_elem:\<close> loop of \<open>_extract_article_from_heading\<close> (lines 307 to 315)
  over the following siblings of the heading; the loop ends at the last sibling, at a
  node that is false, or at the \<open>break\<close>.
\<close>

fun sibling_paragraphs :: "node list \<Rightarrow> string list \<Rightarrow> string list" where
  "sibling_paragraphs [] paragraphs = paragraphs"
| "sibling_paragraphs (next_elem # rest) paragraphs =
     (if \<not> truthy next_elem then paragraphs
      else if node_name next_elem = Some ''p''
      then sibling_paragraphs rest (paragraphs @ [strip (get_text next_elem)])
      else if node_name next_elem \<in> {Some ''h1'', Some ''h2'', Some ''h3'', Some ''h4''}
      then paragraphs
      else sibling_paragraphs rest paragraphs)"

text \<open>\<open>_extract_article_from_heading\<close>\<close>

definition extract_article_from_heading :: "element \<Rightarrow> article" where
  "extract_article_from_heading heading =
     (let art = empty_article\<lparr>title := Some (strip (get_text (node heading)))\<rparr>;
          art = set_url_from (find_tag ''a'' (node heading)) art;
          date_elem = find_next [''time'', ''.date'', ''.published''] heading;
          art = set_date_from date_elem art;
          paragraphs = sibling_paragraphs (next_siblings heading) []
      in if paragraphs \<noteq> [] then art\<lparr>content := Some (str_join newline paragraphs)\<rparr> else art)"

subsection \<open>The extractor (\_extract\_articles)\<close>

definition article_selectors :: "simple_selector list list" where
  "article_selectors =
     [[TypeSel ''article''], [ClassSel ''post''], [ClassSel ''entry''], [ClassSel ''blog-post''],
      [ClassSel ''blog-entry''], [ClassContains ''article''], [ClassContains ''post''],
      [ClassContains ''entry''], [ClassSel ''card''], [ClassSel ''item''], [ClassSel ''news-item'']]"

text \<open>
  \<open>article and article.get('title')\<close>: the dictionary is not empty and has a title
  that is not the empty string.
\<close>

definition has_title :: "article \<Rightarrow> bool" where
  "has_title art =
     (art \<noteq> empty_article \<and> (case title art of None \<Rightarrow> False | Some t \<Rightarrow> t \<noteq> []))"

text \<open>The loop over \<open>article_selectors\<close> (lines 169 to 180), with \<open>articles\<close> as accumulator.\<close>

fun try_selectors ::
  "element list \<Rightarrow> simple_selector list list \<Rightarrow> article list \<Rightarrow> article list" where
  "try_selectors soup [] articles = articles"
| "try_selectors soup (selector # rest) articles =
     (let article_elements = select selector soup
      in if article_elements \<noteq> []
         then (let articles = articles @ filter has_title (map extract_article_data article_elements)
               in if articles \<noteq> [] then articles else try_selectors soup rest articles)
         else try_selectors soup rest articles)"

text \<open>The heading fallback (lines 185 to 191).\<close>

definition heading_articles :: "element list \<Rightarrow> article list" where
  "heading_articles soup =
     (let headings = filter (\<lambda>e. node_name (node e) \<in> {Some ''h1'', Some ''h2'', Some ''h3''}) soup
      in filter has_title (map extract_article_from_heading (filter is_likely_article_title headings)))"

definition extract_from_soup :: "node list \<Rightarrow> article list" where
  "extract_from_soup roots =
     (let soup = elements roots [];
          articles = try_selectors soup article_selectors []
      in if articles = [] then articles @ heading_articles soup else articles)"

text \<open>
  \<open>_extract_articles(html_content)\<close>. The parser \<open>BeautifulSoup(html_content, 'lxml')\<close>
  is a parameter: any function from the markup to the top-level nodes of a tree.
\<close>

definition extract_articles :: "(string \<Rightarrow> node list) \<Rightarrow> string \<Rightarrow> article list" where
  "extract_articles parse html_content = extract_from_soup (parse html_content)"

subsection \<open>Snapshots on disk (scraper.py) and generate\_diff\<close>

text \<open>
  The exceptions the model follows: \<open>ValueError\<close> from \<open>urlparse\<close>, and those of
  \<open>open(...).read()\<close> on a path that is missing, is a directory, is not UTF-8 text or may
  not be read.
\<close>

datatype error =
    ValueError
  | FileNotFoundError
  | IsADirectoryError
  | UnicodeDecodeError
  | PermissionError

text \<open>
  The part of the file system the code reads and writes: the directories holding
  snapshots, and the diff files written by \<open>json.dump\<close>, by path. A directory is the
  list of its entries in the order \<open>os.listdir\<close> gives them, names distinct; an entry is
  a name with what \<open>open(...).read()\<close> gives for it, the text (\<open>Inr\<close>) or the exception
  raised (\<open>Inl\<close>: the entry is itself a directory, its bytes are not UTF-8, it may not
  be read). A date string is a file name without \<open>/\<close>, so \<open>f"{directory}/{name}"\<close> is
  the entry \<open>name\<close> of \<open>directory\<close>. The paths under \<open>data/diffs\<close> differ from those
  under \<open>data/archive\<close>, so the two are separate fields.
\<close>

record filesystem =
  dirs :: "string \<Rightarrow> (string \<times> (error + string)) list option"
  diff_files :: "string \<Rightarrow> diff_result option"

text \<open>\<open>os.path.exists(f"{directory}/{fname}")\<close>, true of every entry, a directory too.\<close>

definition path_exists :: "filesystem \<Rightarrow> string \<Rightarrow> string \<Rightarrow> bool" where
  "path_exists fs directory fname =
     (case dirs fs directory of None \<Rightarrow> False | Some entries \<Rightarrow> fname \<in> set (map fst entries))"

text \<open>
  \<open>open(f"{directory}/{fname}", 'r', encoding='utf-8').read()\<close>: the text, or the
  exception raised.
\<close>

definition read_file :: "filesystem \<Rightarrow> string \<Rightarrow> string \<Rightarrow> error + string" where
  "read_file fs directory fname =
     (case dirs fs directory of
        None \<Rightarrow> Inl FileNotFoundError
      | Some entries \<Rightarrow>
          (case map_of entries fname of None \<Rightarrow> Inl FileNotFoundError | Some outcome \<Rightarrow> outcome))"

text \<open>
  \<open>get_domain\<close>: \<open>urlparse(url).netloc\<close> is a parameter, giving the network location or
  the exception \<open>urlparse\<close> raises (\<open>ValueError\<close>, as on \<open>http://[::1\<close>);
  \<open>re.sub(r'^www\.', '', domain)\<close> removes one leading \<open>www.\<close>.
\<close>

definition get_domain :: "(string \<Rightarrow> error + string) \<Rightarrow> string \<Rightarrow> error + string" where
  "get_domain netloc u =
     (case netloc u of
        Inl e \<Rightarrow> Inl e
      | Inr dmn \<Rightarrow> Inr (if take 4 dmn = ''www.'' then drop 4 dmn else dmn))"

definition archive_dir :: "string \<Rightarrow> string" where
  "archive_dir dmn = ''data/archive/'' @ dmn"

text \<open>\<open>get_previous_content\<close> (scraper.py, lines 126 to 154)\<close>

definition get_previous_content ::
  "(string \<Rightarrow> error + string) \<Rightarrow> filesystem \<Rightarrow> string \<Rightarrow>
   error + (string option \<times> string option)" where
  "get_previous_content netloc fs u =
     (case get_domain netloc u of
        Inl e \<Rightarrow> Inl e
      | Inr dmn \<Rightarrow>
          (let directory = archive_dir dmn
           in case dirs fs directory of
                None \<Rightarrow> Inr (None, None)
              | Some entries \<Rightarrow>
                  (let files = filter (\<lambda>f. endswith f ''.html'') (map fst entries)
                   in if files = [] then Inr (None, None)
                      else (let files = rev (sort files);
                                previous_file = (if length files > 1 then files ! 1 else files ! 0)
                            in case read_file fs directory previous_file of
                                 Inl e \<Rightarrow> Inl e
                               | Inr text \<Rightarrow>
                                   Inr (Some text,
                                        Some (str_replace ''.html'' [] previous_file))))))"

text \<open>\<open>_compare_versions\<close>\<close>

definition compare_versions ::
  "(string \<Rightarrow> node list) \<Rightarrow> string \<Rightarrow> string \<Rightarrow> string \<Rightarrow> string \<Rightarrow> string option \<Rightarrow> string \<Rightarrow>
   diff_result" where
  "compare_versions parse prev_html curr_html u dmn prev_date current_date_str =
     (let prev_articles = extract_articles parse prev_html;
          curr_articles = extract_articles parse curr_html
      in build_diff_result u dmn current_date_str prev_date
           (compare_article_lists prev_articles curr_articles))"

text \<open>The result built when there is no previous content (generate\_diff, lines 56 to 65).\<close>

definition all_new_result :: "string \<Rightarrow> string \<Rightarrow> string \<Rightarrow> article list \<Rightarrow> diff_result" where
  "all_new_result u dmn current_date_str articles =
     \<lparr>dr_url = u, domain = dmn, current_date = current_date_str, previous_date = None,
      has_changes = (length articles > 0),
      new_articles = articles, changed_articles = [], removed_articles = []\<rparr>"

text \<open>\<open>_save_diff_result\<close>\<close>

definition diff_path :: "string \<Rightarrow> string \<Rightarrow> string" where
  "diff_path dmn date_str = ''data/diffs/'' @ dmn @ ''/'' @ date_str @ ''.json''"

definition save_diff_result :: "filesystem \<Rightarrow> diff_result \<Rightarrow> string \<Rightarrow> string \<Rightarrow> filesystem" where
  "save_diff_result fs res dmn date_str =
     fs\<lparr>diff_files := (diff_files fs)(diff_path dmn date_str \<mapsto> res)\<rparr>"

text \<open>
  \<open>generate_diff\<close>: the value returned (\<open>None\<close> or the result; \<open>Inl\<close> an exception
  raised on the way) and the file system afterwards.
\<close>

definition generate_diff ::
  "(string \<Rightarrow> node list) \<Rightarrow> (string \<Rightarrow> error + string) \<Rightarrow> filesystem \<Rightarrow> string \<Rightarrow> string \<Rightarrow>
   (error + diff_result option) \<times> filesystem" where
  "generate_diff parse netloc fs u current_date_str =
     (case get_domain netloc u of
        Inl e \<Rightarrow> (Inl e, fs)
      | Inr dmn \<Rightarrow>
          (let current_file = current_date_str @ ''.html''
           in if \<not> path_exists fs (archive_dir dmn) current_file then (Inr None, fs)
              else (case read_file fs (archive_dir dmn) current_file of
                      Inl e \<Rightarrow> (Inl e, fs)
                    | Inr curr_html \<Rightarrow>
                        (case get_previous_content netloc fs u of
                           Inl e \<Rightarrow> (Inl e, fs)
                         | Inr (prev_html, prev_date) \<Rightarrow>
                             (let res =
                                (case prev_html of
                                   None \<Rightarrow>
                                     all_new_result u dmn current_date_str
                                       (extract_articles parse curr_html)
                                 | Some previous_html \<Rightarrow>
                                     compare_versions parse previous_html curr_html u dmn
                                       prev_date current_date_str)
                              in (Inr (Some res),
                                  save_diff_result fs res dmn current_date_str))))))"

subsection \<open>Auxiliary notions for the proofs\<close>

text \<open>An association list with distinct keys in which every article sits under its own key.\<close>

definition keyed :: "(string \<times> article) list \<Rightarrow> bool" where
  "keyed d = (distinct (map fst d) \<and> (\<forall>(k, a) \<in> set d. article_key a = k))"

text \<open>
  The articles one selector contributes in \<open>_extract_articles\<close>: those extracted from the
  elements it matches that pass the title test.
\<close>

definition titled_articles :: "element list \<Rightarrow> simple_selector list \<Rightarrow> article list" where
  "titled_articles soup selector = filter has_title (map extract_article_data (select selector soup))"

text \<open>At least one of the three classified lists of a result is not empty.\<close>

definition lists_nonempty :: "diff_result \<Rightarrow> bool" where
  "lists_nonempty r = (new_articles r \<noteq> [] \<or> changed_articles r \<noteq> [] \<or> removed_articles r \<noteq> [])"

text \<open>A dictionary with the value under one key replaced (a key that is absent stays absent).\<close>

definition override :: "'k \<Rightarrow> 'v \<Rightarrow> ('k \<times> 'v) list \<Rightarrow> ('k \<times> 'v) list" where
  "override k w d = map (\<lambda>(k', v). (k', if k' = k then w else v)) d"

subsection \<open>Readings of the specification\<close>

text \<open>
  The content, description and summary classes alone, without the paragraph selector
  the source puts in the same group.
\<close>

definition content_class_selector :: "simple_selector list" where
  "content_class_selector =
     [ClassSel ''content'', ClassSel ''entry-content'', ClassSel ''description'',
      ClassSel ''summary'']"

text \<open>
  The content the specification describes first: the trimmed text of the first match of
  a content, description or summary class in the container.
\<close>

definition first_class_match_text :: "element \<Rightarrow> string option" where
  "first_class_match_text e =
     map_option (\<lambda>ce. strip (get_text (node ce))) (select_one content_class_selector e)"

text \<open>The structural level of a heading: 1 for \<open>h1\<close> to 6 for \<open>h6\<close>.\<close>

fun heading_level :: "node \<Rightarrow> nat option" where
  "heading_level (Tag nm cls ats cs) =
     (if nm = ''h1'' then Some 1 else if nm = ''h2'' then Some 2 else if nm = ''h3'' then Some 3
      else if nm = ''h4'' then Some 4 else if nm = ''h5'' then Some 5
      else if nm = ''h6'' then Some 6 else None)"
| "heading_level (NavigableString s) = None"
| "heading_level (Comment s) = None"

text \<open>
  The sibling walk as the specification words it: the paragraphs among the following
  siblings, up to the next heading whose level is equal to or higher than that of the
  accepted heading (a level number that is not larger).
\<close>

fun spec_sibling_paragraphs :: "nat \<Rightarrow> node list \<Rightarrow> string list" where
  "spec_sibling_paragraphs lvl [] = []"
| "spec_sibling_paragraphs lvl (n # rest) =
     (if node_name n = Some ''p'' then strip (get_text n) # spec_sibling_paragraphs lvl rest
      else (case heading_level n of
              Some l \<Rightarrow> if l \<le> lvl then [] else spec_sibling_paragraphs lvl rest
            | None \<Rightarrow> spec_sibling_paragraphs lvl rest))"

subsection \<open>Example documents and snapshots\<close>

text \<open>
  A container whose first paragraph comes before its element of class \<open>content\<close>.
\<close>

definition ex_container :: node where
  "ex_container =
     Tag ''article'' [] []
       [Tag ''h2'' [] [] [NavigableString ''Release notes''],
        Tag ''p'' [] [] [NavigableString '' intro ''],
        Tag ''div'' [''content''] [] [NavigableString ''body'']]"

definition ex_element :: element where
  "ex_element = \<lparr>node = ex_container, next_siblings = [], following = []\<rparr>"

text \<open>
  An \<open>h2\<close> heading followed by a paragraph, an \<open>h3\<close> heading, a second paragraph and
  the next \<open>h2\<close>.
\<close>

definition ex_siblings :: "node list" where
  "ex_siblings =
     [Tag ''p'' [] [] [NavigableString ''first''],
      Tag ''h3'' [] [] [NavigableString ''Details''],
      Tag ''p'' [] [] [NavigableString ''second''],
      Tag ''h2'' [] [] [NavigableString ''Next'']]"

definition ex_heading :: element where
  "ex_heading =
     \<lparr>node = Tag ''h2'' [] [] [NavigableString ''A long enough heading''],
      next_siblings = ex_siblings, following = concat (map (\<lambda>m. m # descendants m) ex_siblings)\<rparr>"

text \<open>
  Three documents and the trees a parser gives for them (\<open>html\<close> and \<open>body\<close> added,
  as the lxml parser does).
\<close>

definition ex_markup :: string where
  "ex_markup = ''<article><h2>Release notes</h2><p> intro </p><div class=content>body</div></article>''"

definition ex_heading_markup :: string where
  "ex_heading_markup =
     ''<h2>A long enough heading</h2><p>first</p><h3>Details</h3><p>second</p><h2>Next</h2>''"

definition ex_plain_markup :: string where
  "ex_plain_markup = ''<div>hello</div>''"

definition ex_parse :: "string \<Rightarrow> node list" where
  "ex_parse markup =
     (if markup = ex_markup then [Tag ''html'' [] [] [Tag ''body'' [] [] [ex_container]]]
      else if markup = ex_heading_markup
      then [Tag ''html'' [] [] [Tag ''body'' [] [] (node ex_heading # ex_siblings)]]
      else if markup = ex_plain_markup
      then [Tag ''html'' [] [] [Tag ''body'' [] [] [Tag ''div'' [] [] [NavigableString ''hello'']]]]
      else [])"

text \<open>\<open>urlparse\<close> on the example URLs: the second has an unclosed bracket and is refused.\<close>

definition ex_netloc :: "string \<Rightarrow> error + string" where
  "ex_netloc u =
     (if u = ''https://www.blog.test/'' then Inr ''www.blog.test''
      else if u = ''http://[::1'' then Inl ValueError
      else Inr [])"

text \<open>
  The archive after the first run for a blog, holding the snapshot just saved, and
  after a second run.
\<close>

definition ex_first_run :: filesystem where
  "ex_first_run =
     \<lparr>dirs = (\<lambda>d. if d = ''data/archive/blog.test''
                   then Some [(''2024-01-02.html'', Inr ex_markup)] else None),
      diff_files = (\<lambda>p. None)\<rparr>"

definition ex_second_run :: filesystem where
  "ex_second_run =
     \<lparr>dirs = (\<lambda>d. if d = ''data/archive/blog.test''
                   then Some [(''2024-01-02.html'', Inr ex_markup),
                              (''2024-01-01.html'', Inr ex_plain_markup)]
                   else None),
      diff_files = (\<lambda>p. None)\<rparr>"

text \<open>An archive in which the entry \<open>2024-01-01.html\<close> is a directory.\<close>

definition ex_directory_entry :: filesystem where
  "ex_directory_entry =
     \<lparr>dirs = (\<lambda>d. if d = ''data/archive/blog.test''
                   then Some [(''2024-01-02.html'', Inr ex_markup),
                              (''2024-01-01.html'', Inl IsADirectoryError)]
                   else None),
      diff_files = (\<lambda>p. None)\<rparr>"

text \<open>Articles for the examples.\<close>

definition ex_article :: article where
  "ex_article = \<lparr>title = Some ''Release notes'', url = None, date = None, content = Some ''intro''\<rparr>"

definition ex_heading_article :: article where
  "ex_heading_article =
     \<lparr>title = Some ''A long enough heading'', url = None, date = None, content = Some ''first''\<rparr>"

definition ex_old :: article where
  "ex_old = \<lparr>title = Some ''Release notes'', url = None, date = None, content = Some ''draft''\<rparr>"

definition ex_gone :: article where
  "ex_gone = \<lparr>title = Some ''Old post'', url = Some ''/old'', date = None, content = None\<rparr>"

definition ex_draft :: article where
  "ex_draft = \<lparr>title = Some ''Release notes'', url = None, date = Some ''2024'', content = None\<rparr>"

section \<open>Properties\<close>

subsection \<open>The comparator\<close>

lemma map_of_dict_setitem: "map_of (dict_setitem k v d) = (map_of d)(k \<mapsto> v)"
  by (induction d) (auto simp: fun_eq_iff)

lemma keys_dict_setitem:
  "map fst (dict_setitem k v d) = (if k \<in> set (map fst d) then map fst d else map fst d @ [k])"
  by (induction d) force+

lemma distinct_dict_setitem:
  "distinct (map fst d) \<Longrightarrow> distinct (map fst (dict_setitem k v d))"
  by (simp add: keys_dict_setitem)

lemma set_dict_setitem: "set (dict_setitem k v d) \<subseteq> insert (k, v) (set d)"
  by (induction d) (auto split: if_splits)

lemma keyed_setitem: "keyed d \<Longrightarrow> keyed (dict_setitem (article_key a) a d)"
  using set_dict_setitem[of "article_key a" a d]
  by (auto simp: keyed_def distinct_dict_setitem)

lemma keyed_foldl:
  "keyed d \<Longrightarrow> keyed (foldl (\<lambda>d art. dict_setitem (article_key art) art d) d xs)"
  by (induction xs arbitrary: d) (auto simp: keyed_setitem)

lemma keyed_article_map: "keyed (article_map xs)"
  unfolding article_map_def by (rule keyed_foldl) (simp add: keyed_def)

lemma map_of_foldl_setitem:
  "map_of (foldl (\<lambda>d art. dict_setitem (article_key art) art d) d xs) k =
     (case filter (\<lambda>a. article_key a = k) xs of [] \<Rightarrow> map_of d k | y # ys \<Rightarrow> Some (last (y # ys)))"
proof (induction xs arbitrary: d)
  case Nil
  then show ?case by simp
next
  case (Cons x xs)
  show ?case
    by (simp add: Cons.IH map_of_dict_setitem split: list.splits)
qed

lemma map_of_article_map:
  "map_of (article_map xs) k =
     (case filter (\<lambda>a. article_key a = k) xs of [] \<Rightarrow> None | y # ys \<Rightarrow> Some (last (y # ys)))"
  by (simp add: article_map_def map_of_foldl_setitem split: list.splits)

lemma find_new_and_changed_eq:
  "find_new_and_changed pm items (new, changed) =
     (new @ map snd (filter (\<lambda>(k, c). map_of pm k = None) items),
      changed @ map (\<lambda>(k, c). diff_obj c (the (map_of pm k)))
                  (filter (\<lambda>(k, c). \<exists>p. map_of pm k = Some p \<and> content c \<noteq> content p) items))"
  by (induction items arbitrary: new changed) (auto split: option.splits)

lemma find_removed_eq:
  "find_removed cm items removed =
     removed @ map snd (filter (\<lambda>(k, p). map_of cm k = None) items)"
  by (induction items arbitrary: removed) (auto split: option.splits)

lemma distinct_filter_fst:
  "distinct (map fst d) \<Longrightarrow>
   filter (\<lambda>(k', a). k' = k) d = (case map_of d k of None \<Rightarrow> [] | Some a \<Rightarrow> [(k, a)])"
proof (induction d)
  case Nil
  then show ?case by simp
next
  case (Cons x d)
  obtain k' a where x: "x = (k', a)" by (cases x)
  show ?case
  proof (cases "k' = k")
    case True
    with Cons.prems x have "k \<notin> fst ` set d" by auto
    hence "filter (\<lambda>(k', a). k' = k) d = []"
      by (force simp: filter_empty_conv)
    with True x show ?thesis by simp
  next
    case False
    with Cons x show ?thesis by simp
  qed
qed

lemma keyed_entries:
  assumes "keyed d"
  shows "filter (\<lambda>a. article_key a = k) (map snd (filter P d)) =
         (case map_of d k of None \<Rightarrow> [] | Some a \<Rightarrow> if P (k, a) then [a] else [])"
proof -
  have eq: "filter (\<lambda>x. article_key (snd x) = k) d = filter (\<lambda>(k', a). k' = k) d"
    using assms by (intro filter_cong) (auto simp: keyed_def)
  have "filter (\<lambda>a. article_key a = k) (map snd (filter P d))
        = map snd (filter P (filter (\<lambda>x. article_key (snd x) = k) d))"
    by (simp add: filter_map comp_def conj_commute)
  also have "\<dots> = map snd (filter P (case map_of d k of None \<Rightarrow> [] | Some a \<Rightarrow> [(k, a)]))"
    using assms by (simp add: eq distinct_filter_fst keyed_def)
  finally show ?thesis by (simp split: option.splits)
qed

lemma changed_key_diff_obj: "changed_key (diff_obj c p) = article_key c"
  by (simp add: changed_key_def diff_obj_def article_key_def split: option.splits)

lemma keyed_changed_entries:
  assumes "keyed d"
  shows "filter (\<lambda>x. changed_key x = k) (map (\<lambda>(k', c). diff_obj c (f k')) (filter P d)) =
         (case map_of d k of None \<Rightarrow> [] | Some a \<Rightarrow> if P (k, a) then [diff_obj a (f k)] else [])"
proof -
  have eq: "filter (\<lambda>x. article_key (snd x) = k) d = filter (\<lambda>(k', a). k' = k) d"
    using assms by (intro filter_cong) (auto simp: keyed_def)
  have "filter (\<lambda>x. changed_key x = k) (map (\<lambda>(k', c). diff_obj c (f k')) (filter P d))
        = map (\<lambda>(k', c). diff_obj c (f k')) (filter P (filter (\<lambda>x. article_key (snd x) = k) d))"
    by (simp add: filter_map comp_def conj_commute case_prod_unfold changed_key_diff_obj)
  also have "\<dots> = map (\<lambda>(k', c). diff_obj c (f k')) (filter P (case map_of d k of None \<Rightarrow> [] | Some a \<Rightarrow> [(k, a)]))"
    using assms by (simp add: eq distinct_filter_fst keyed_def)
  finally show ?thesis by (simp split: option.splits)
qed

text \<open>
  Claim C1. For any two article lists, each identity key \<open>k\<close> is classified by its
  presence in the two mappings: in the current mapping only, the entries of
  \<open>new_articles\<close> under \<open>k\<close> are exactly the one current article and the other two
  lists hold nothing under \<open>k\<close>; in both mappings, \<open>changed_articles\<close> holds under
  \<open>k\<close> exactly one \<open>diff_obj\<close> with both content versions when the contents differ
  (as optional strings) and nothing when they are equal, and the other lists hold
  nothing under \<open>k\<close>; that \<open>diff_obj\<close> has the content of the previous article as
  \<open>previous_content\<close>, the content of the current article as \<open>current_content\<close>, and
  the current article's title and url; in the previous mapping only, \<open>removed_articles\<close> holds exactly
  the one previous article; in neither, nothing. So no key is in two lists.
\<close>

theorem comparator_classification:
  assumes "compare_article_lists previous current = (new, changed, removed)"
  shows "(case (map_of (article_map current) k, map_of (article_map previous) k) of
            (Some c, None) \<Rightarrow>
              filter (\<lambda>a. article_key a = k) new = [c] \<and>
              filter (\<lambda>x. changed_key x = k) changed = [] \<and>
              filter (\<lambda>a. article_key a = k) removed = []
          | (Some c, Some p) \<Rightarrow>
              filter (\<lambda>a. article_key a = k) new = [] \<and>
              filter (\<lambda>x. changed_key x = k) changed =
                (if content c \<noteq> content p then [diff_obj c p] else []) \<and>
              filter (\<lambda>a. article_key a = k) removed = [] \<and>
              previous_content (diff_obj c p) = content p \<and>
              current_content (diff_obj c p) = content c \<and>
              ca_title (diff_obj c p) = title c \<and> ca_url (diff_obj c p) = url c
          | (None, Some p) \<Rightarrow>
              filter (\<lambda>a. article_key a = k) new = [] \<and>
              filter (\<lambda>x. changed_key x = k) changed = [] \<and>
              filter (\<lambda>a. article_key a = k) removed = [p]
          | (None, None) \<Rightarrow>
              filter (\<lambda>a. article_key a = k) new = [] \<and>
              filter (\<lambda>x. changed_key x = k) changed = [] \<and>
              filter (\<lambda>a. article_key a = k) removed = [])"
proof -
  let ?pm = "article_map previous" and ?cm = "article_map current"
  have new: "new = map snd (filter (\<lambda>(k, c). map_of ?pm k = None) ?cm)"
    and changed: "changed = map (\<lambda>(k, c). diff_obj c (the (map_of ?pm k)))
                  (filter (\<lambda>(k, c). \<exists>p. map_of ?pm k = Some p \<and> content c \<noteq> content p) ?cm)"
    and removed: "removed = map snd (filter (\<lambda>(k, p). map_of ?cm k = None) ?pm)"
    using assms
    by (simp_all add: compare_article_lists_def Let_def find_new_and_changed_eq find_removed_eq)
  have n: "filter (\<lambda>a. article_key a = k) new =
        (case map_of ?cm k of None \<Rightarrow> [] | Some a \<Rightarrow> if map_of ?pm k = None then [a] else [])"
    unfolding new by (simp add: keyed_entries[OF keyed_article_map] split: option.splits)
  have c: "filter (\<lambda>x. changed_key x = k) changed =
        (case map_of ?cm k of None \<Rightarrow> []
         | Some a \<Rightarrow> if (\<exists>p. map_of ?pm k = Some p \<and> content a \<noteq> content p)
                     then [diff_obj a (the (map_of ?pm k))] else [])"
    unfolding changed by (simp add: keyed_changed_entries[OF keyed_article_map] split: option.splits)
  have r: "filter (\<lambda>a. article_key a = k) removed =
        (case map_of ?pm k of None \<Rightarrow> [] | Some a \<Rightarrow> if map_of ?cm k = None then [a] else [])"
    unfolding removed by (simp add: keyed_entries[OF keyed_article_map] split: option.splits)
  show ?thesis
    by (simp add: n c r diff_obj_def split: option.splits)
qed

text \<open>One article changed and one removed.\<close>

theorem comparator_classification_witness:
  "compare_article_lists [ex_gone, ex_old] [ex_article] =
     ([], [diff_obj ex_article ex_old], [ex_gone]) \<and>
   filter (\<lambda>x. changed_key x = ''Release notes'') [diff_obj ex_article ex_old] =
     [diff_obj ex_article ex_old] \<and>
   filter (\<lambda>a. article_key a = ''Release notes'') [ex_gone] = [] \<and>
   previous_content (diff_obj ex_article ex_old) = Some ''draft'' \<and>
   current_content (diff_obj ex_article ex_old) = Some ''intro''"
proof -
  have h: "compare_article_lists [ex_gone, ex_old] [ex_article] =
     ([], [diff_obj ex_article ex_old], [ex_gone])" by code_simp
  have c: "map_of (article_map [ex_article]) ''Release notes'' = Some ex_article" by code_simp
  have p: "map_of (article_map [ex_gone, ex_old]) ''Release notes'' = Some ex_old" by code_simp
  have d: "content ex_article \<noteq> content ex_old" by code_simp
  have co: "content ex_old = Some ''draft''" "content ex_article = Some ''intro''"
    by code_simp+
  from comparator_classification[OF h, of "''Release notes''"] c p d h co
  show ?thesis by simp
qed

lemma override_setitem_same:
  "override k w (dict_setitem k v d) = dict_setitem k w (override k w d)"
  by (induction d) (auto simp: override_def)

lemma override_setitem_other:
  "k' \<noteq> k \<Longrightarrow> override k w (dict_setitem k' v d) = dict_setitem k' v (override k w d)"
  by (induction d) (auto simp: override_def)

lemma override_absent: "k \<notin> fst ` set d \<Longrightarrow> override k w d = d"
  by (induction d) (auto simp: override_def)

lemma setitem_override:
  "distinct (map fst d) \<Longrightarrow> dict_setitem k v (override k w d) = dict_setitem k v d"
proof (induction d)
  case Nil
  then show ?case by (simp add: override_def)
next
  case (Cons x d)
  obtain k' v' where x: "x = (k', v')" by (cases x)
  show ?case
  proof (cases "k' = k")
    case True
    with Cons.prems x have "k \<notin> fst ` set d" by auto
    hence "override k w d = d" by (rule override_absent)
    hence "override k w (x # d) = (k, w) # d" using True x by (simp add: override_def)
    thus ?thesis using True x by simp
  next
    case False
    have "override k w (x # d) = x # override k w d" using False x by (simp add: override_def)
    thus ?thesis using False x Cons by simp
  qed
qed

lemma foldl_setitem_overwritten:
  assumes "override k w d1 = override k w d2" and "\<exists>b \<in> set ys. article_key b = k"
    and "distinct (map fst d1)" and "distinct (map fst d2)"
  shows "foldl (\<lambda>d art. dict_setitem (article_key art) art d) d1 ys =
         foldl (\<lambda>d art. dict_setitem (article_key art) art d) d2 ys"
  using assms
proof (induction ys arbitrary: d1 d2)
  case Nil
  then show ?case by simp
next
  case (Cons y ys)
  show ?case
  proof (cases "article_key y = k")
    case True
    have "dict_setitem k y d1 = dict_setitem k y (override k w d1)"
      by (simp add: setitem_override Cons.prems(3))
    also have "\<dots> = dict_setitem k y d2"
      by (simp add: Cons.prems(1) setitem_override Cons.prems(4))
    finally show ?thesis using True by simp
  next
    case False
    hence ov: "override k w (dict_setitem (article_key y) y d1) =
           override k w (dict_setitem (article_key y) y d2)"
      by (simp add: override_setitem_other Cons.prems(1))
    from Cons.prems(2) False have "\<exists>b \<in> set ys. article_key b = k" by auto
    from Cons.IH[OF ov this] Cons.prems(3,4) show ?thesis
      by (simp add: distinct_dict_setitem)
  qed
qed

lemma article_map_replace_earlier:
  assumes "article_key a = k" "article_key a' = k" "\<exists>b \<in> set ys. article_key b = k"
  shows "article_map (xs @ a # ys) = article_map (xs @ a' # ys)"
proof -
  let ?f = "\<lambda>d art. dict_setitem (article_key art) art d"
  have "override k a (dict_setitem k a (foldl ?f [] xs)) =
        override k a (dict_setitem k a' (foldl ?f [] xs))"
    by (simp add: override_setitem_same)
  moreover have "distinct (map fst (foldl ?f [] xs))"
    using keyed_foldl[of "[]" xs] by (simp add: keyed_def)
  ultimately show ?thesis
    using foldl_setitem_overwritten[OF _ assms(3), of a "dict_setitem k a (foldl ?f [] xs)"
        "dict_setitem k a' (foldl ?f [] xs)"]
    by (simp add: article_map_def assms(1,2) distinct_dict_setitem)
qed

text \<open>
  Claim C8. The mapping built from an article list holds under each key the last
  article of the list with that key. An earlier article with the same key plays no
  part: replacing it by any other article with that key leaves the mapping, and the
  comparator's output on either side, unchanged.
\<close>

theorem duplicate_key_last_wins:
  "map_of (article_map articles) k =
     (case filter (\<lambda>a. article_key a = k) articles of
        [] \<Rightarrow> None
      | y # ys \<Rightarrow> Some (last (y # ys))) \<and>
   (article_key a = k \<and> article_key a' = k \<and> (\<exists>b \<in> set ys. article_key b = k) \<longrightarrow>
      article_map (xs @ a # ys) = article_map (xs @ a' # ys) \<and>
      compare_article_lists (xs @ a # ys) other = compare_article_lists (xs @ a' # ys) other \<and>
      compare_article_lists other (xs @ a # ys) = compare_article_lists other (xs @ a' # ys))"
proof (intro conjI impI)
  show "map_of (article_map articles) k =
     (case filter (\<lambda>a. article_key a = k) articles of
        [] \<Rightarrow> None
      | y # ys \<Rightarrow> Some (last (y # ys)))"
    by (rule map_of_article_map)
next
  assume h: "article_key a = k \<and> article_key a' = k \<and> (\<exists>b \<in> set ys. article_key b = k)"
  hence eq: "article_map (xs @ a # ys) = article_map (xs @ a' # ys)"
    by (intro article_map_replace_earlier[of a k a' ys xs]) auto
  show "article_map (xs @ a # ys) = article_map (xs @ a' # ys)" by (rule eq)
  show "compare_article_lists (xs @ a # ys) other = compare_article_lists (xs @ a' # ys) other"
    by (simp add: compare_article_lists_def eq)
  show "compare_article_lists other (xs @ a # ys) = compare_article_lists other (xs @ a' # ys)"
    by (simp add: compare_article_lists_def eq)
qed

text \<open>Two articles under one key: the later one is kept, whatever the earlier one is.\<close>

theorem duplicate_key_last_wins_witness:
  "article_key ex_old = ''Release notes'' \<and>
   article_key ex_draft = ''Release notes'' \<and>
   article_key ex_article = ''Release notes'' \<and>
   article_map ([ex_gone] @ ex_old # [ex_article]) =
     article_map ([ex_gone] @ ex_draft # [ex_article]) \<and>
   map_of (article_map [ex_gone, ex_old, ex_article]) ''Release notes'' = Some ex_article"
proof -
  have k1: "article_key ex_old = ''Release notes''" by code_simp
  have k2: "article_key ex_draft = ''Release notes''" by code_simp
  have k3: "article_key ex_article = ''Release notes''" by code_simp
  have l: "(case filter (\<lambda>a. article_key a = ''Release notes'') [ex_gone, ex_old, ex_article] of
        [] \<Rightarrow> None | y # ys \<Rightarrow> Some (last (y # ys))) = Some ex_article" by code_simp
  have b: "\<exists>b \<in> set [ex_article]. article_key b = ''Release notes''" using k3 by simp
  note inst = duplicate_key_last_wins[of "[ex_gone, ex_old, ex_article]" "''Release notes''"
      ex_old ex_draft "[ex_article]" "[ex_gone]"]
  from inst have "map_of (article_map [ex_gone, ex_old, ex_article]) ''Release notes'' =
      (case filter (\<lambda>a. article_key a = ''Release notes'') [ex_gone, ex_old, ex_article] of
        [] \<Rightarrow> None | y # ys \<Rightarrow> Some (last (y # ys)))" by (rule conjunct1)
  hence m: "map_of (article_map [ex_gone, ex_old, ex_article]) ''Release notes'' = Some ex_article"
    by (simp only: l)
  from inst k1 k2 b have "article_map ([ex_gone] @ ex_old # [ex_article]) =
     article_map ([ex_gone] @ ex_draft # [ex_article])" by blast
  with k1 k2 k3 m show ?thesis by blast
qed

subsection \<open>The extractor\<close>

lemma try_selectors_find:
  "try_selectors soup sels [] =
     (case List.find (\<lambda>sel. titled_articles soup sel \<noteq> []) sels of
        None \<Rightarrow> []
      | Some sel \<Rightarrow> titled_articles soup sel)"
  by (induction sels) (auto simp: Let_def titled_articles_def)

lemma has_title_D: "has_title a \<Longrightarrow> \<exists>t. title a = Some t \<and> t \<noteq> []"
  by (auto simp: has_title_def split: option.splits)

lemma try_selectors_has_title: "a \<in> set (try_selectors soup sels []) \<Longrightarrow> has_title a"
  by (auto simp: try_selectors_find titled_articles_def split: option.splits)

lemma heading_articles_has_title: "a \<in> set (heading_articles soup) \<Longrightarrow> has_title a"
  by (auto simp: heading_articles_def Let_def)

lemma extract_from_soup_has_title: "a \<in> set (extract_from_soup roots) \<Longrightarrow> has_title a"
  by (auto simp: extract_from_soup_def Let_def try_selectors_has_title heading_articles_has_title
      split: if_splits)

lemma try_selectors_nothing:
  assumes "\<forall>e \<in> set soup. \<not> has_title (extract_article_data e)"
  shows "try_selectors soup sels [] = []"
proof -
  have "titled_articles soup sel = []" for sel
    using assms by (auto simp: titled_articles_def select_def filter_empty_conv)
  thus ?thesis by (simp add: try_selectors_find split: option.splits)
qed

lemma heading_articles_nothing:
  assumes "\<forall>e \<in> set soup. \<not> is_likely_article_title e"
  shows "heading_articles soup = []"
  using assms by (auto simp: heading_articles_def Let_def filter_empty_conv)

text \<open>
  Claim C2. Whatever tree the parser returns for a markup string, every article in the
  extractor's output has a title that is present and not empty; and when no element
  of the tree gives a titled article and none passes the heading test, the output is
  the empty list.
\<close>

theorem extractor_titles_nonempty:
  "(\<forall>a \<in> set (extract_articles parse markup). \<exists>t. title a = Some t \<and> t \<noteq> []) \<and>
   ((\<forall>e \<in> set (elements (parse markup) []).
        \<not> has_title (extract_article_data e) \<and> \<not> is_likely_article_title e) \<longrightarrow>
      extract_articles parse markup = [])"
proof (intro conjI ballI impI)
  fix a assume "a \<in> set (extract_articles parse markup)"
  thus "\<exists>t. title a = Some t \<and> t \<noteq> []"
    by (simp add: extract_articles_def extract_from_soup_has_title has_title_D)
next
  assume h: "\<forall>e \<in> set (elements (parse markup) []).
        \<not> has_title (extract_article_data e) \<and> \<not> is_likely_article_title e"
  show "extract_articles parse markup = []"
    using h by (simp add: extract_articles_def extract_from_soup_def Let_def
        try_selectors_nothing heading_articles_nothing)
qed

text \<open>A document with one container, and one with nothing to find.\<close>

theorem extractor_titles_nonempty_witness:
  "ex_article \<in> set (extract_articles ex_parse ex_markup) \<and>
   (\<exists>t. title ex_article = Some t \<and> t \<noteq> []) \<and>
   extract_articles ex_parse ex_plain_markup = []"
proof -
  have m: "ex_article \<in> set (extract_articles ex_parse ex_markup)" by code_simp
  have n: "\<forall>e \<in> set (elements (ex_parse ex_plain_markup) []).
        \<not> has_title (extract_article_data e) \<and> \<not> is_likely_article_title e"
    by code_simp
  from extractor_titles_nonempty[of ex_parse ex_markup] m
  have "\<exists>t. title ex_article = Some t \<and> t \<noteq> []" by blast
  moreover from extractor_titles_nonempty[of ex_parse ex_plain_markup] n
  have "extract_articles ex_parse ex_plain_markup = []" by blast
  ultimately show ?thesis using m by blast
qed

lemma find_holds: "List.find P xs = Some x \<Longrightarrow> P x"
  by (induction xs) (auto split: if_splits)

text \<open>
  Claim C7. The extractor's result is the list of titled articles of the first selector,
  in the fixed order of \<open>article_selectors\<close>, that has any; articles of two selectors
  are never merged, and the heading fallback is the result only when no selector has
  a titled article.
\<close>

theorem structural_short_circuit:
  "extract_from_soup roots =
     (let soup = elements roots []
      in case List.find (\<lambda>sel. titled_articles soup sel \<noteq> []) article_selectors of
           Some sel \<Rightarrow> titled_articles soup sel
         | None \<Rightarrow> heading_articles soup)"
proof (cases "List.find (\<lambda>sel. titled_articles (elements roots []) sel \<noteq> []) article_selectors")
  case None
  then show ?thesis
    by (simp add: extract_from_soup_def Let_def try_selectors_find)
next
  case (Some sel)
  from find_holds[OF Some] have "titled_articles (elements roots []) sel \<noteq> []" .
  with Some show ?thesis
    by (simp add: extract_from_soup_def Let_def try_selectors_find)
qed

lemma dropWhile_strip_aux:
  assumes "t = [] \<or> \<not> P (hd t)"
  shows "dropWhile P (rev (dropWhile P (rev t))) = rev (dropWhile P (rev t))"
proof -
  let ?u = "rev (dropWhile P (rev t))"
  have "?u = [] \<or> \<not> P (hd ?u)"
  proof (cases "?u = []")
    case True
    then show ?thesis by blast
  next
    case False
    have split: "t = ?u @ rev (takeWhile P (rev t))"
      by (metis rev_append rev_rev_ident takeWhile_dropWhile_id)
    have "hd t = hd (?u @ rev (takeWhile P (rev t)))" using split by (rule arg_cong)
    hence "hd t = hd ?u" using False by simp
    moreover have "t \<noteq> []" using False by auto
    ultimately show ?thesis using assms by simp
  qed
  thus ?thesis by (simp only: dropWhile_eq_self_iff)
qed

lemma strip_strip: "strip (strip s) = strip s"
proof -
  have t: "dropWhile isspace s = [] \<or> \<not> isspace (hd (dropWhile isspace s))"
    by (metis hd_dropWhile)
  have "dropWhile isspace (strip s) = strip s"
    unfolding strip_def using t by (rule dropWhile_strip_aux)
  thus ?thesis
    by (simp add: strip_def dropWhile_idem)
qed

text \<open>
  Claim C10. When the structural pass yields no article, every article of the output
  comes from a heading that passed \<open>_is_likely_article_title\<close>; its title is the trimmed
  text of that heading, and the trimmed length of the title is between 10 and 200.
\<close>

theorem heading_fallback_title_length:
  assumes "try_selectors (elements (parse markup) []) article_selectors [] = []"
    and "a \<in> set (extract_articles parse markup)"
  shows "\<exists>h \<in> set (elements (parse markup) []). \<exists>t.
           is_likely_article_title h \<and> t = strip (get_text (node h)) \<and> title a = Some t \<and>
           10 \<le> length (strip t) \<and> length (strip t) \<le> 200"
proof -
  from assms have "a \<in> set (heading_articles (elements (parse markup) []))"
    by (simp add: extract_articles_def extract_from_soup_def Let_def)
  then obtain h where h: "h \<in> set (elements (parse markup) [])" "is_likely_article_title h"
      "a = extract_article_from_heading h"
    by (auto simp: heading_articles_def Let_def)
  have t: "title a = Some (strip (get_text (node h)))"
    by (simp add: h(3) extract_article_from_heading_def Let_def set_url_from_def set_date_from_def
        split: option.splits)
  have "10 \<le> length (strip (get_text (node h))) \<and> length (strip (get_text (node h))) \<le> 200"
    using h(2) by (auto simp: is_likely_article_title_def Let_def split: if_splits)
  with h(1,2) t show ?thesis by (auto simp: strip_strip)
qed

text \<open>A document without containers, where the heading fallback gives the article.\<close>

theorem heading_fallback_title_length_witness:
  "try_selectors (elements (ex_parse ex_heading_markup) []) article_selectors [] = [] \<and>
   ex_heading_article \<in> set (extract_articles ex_parse ex_heading_markup) \<and>
   (\<exists>t. title ex_heading_article = Some t \<and> 10 \<le> length (strip t) \<and> length (strip t) \<le> 200)"
proof -
  have s: "try_selectors (elements (ex_parse ex_heading_markup) []) article_selectors [] = []"
    by code_simp
  have m: "ex_heading_article \<in> set (extract_articles ex_parse ex_heading_markup)"
    by code_simp
  from heading_fallback_title_length[OF s m] s m show ?thesis by blast
qed

subsection \<open>Results and snapshots\<close>

lemma has_changes_build:
  "has_changes (build_diff_result u d cd pd cl) =
     (new_articles (build_diff_result u d cd pd cl) \<noteq> [] \<or>
      changed_articles (build_diff_result u d cd pd cl) \<noteq> [] \<or>
      removed_articles (build_diff_result u d cd pd cl) \<noteq> [])"
  by (cases cl) (simp add: build_diff_result_def)

lemma has_changes_compare:
  "has_changes (compare_versions parse p c u d pd cd) = lists_nonempty (compare_versions parse p c u d pd cd)"
  by (simp add: compare_versions_def Let_def lists_nonempty_def has_changes_build)

lemma has_changes_all_new:
  "has_changes (all_new_result u d cd arts) = lists_nonempty (all_new_result u d cd arts)"
  by (simp add: all_new_result_def lists_nonempty_def)

lemma generate_diff_result_has_changes:
  assumes "fst (generate_diff parse netloc fs u cd) = Inr (Some r)"
  shows "has_changes r = lists_nonempty r"
  using assms
  by (auto simp: generate_diff_def Let_def has_changes_compare has_changes_all_new
      split: if_splits sum.splits option.splits prod.splits)

text \<open>
  Claim C3. In the result of \<open>_compare_versions\<close>, in the result built when there is
  no previous content, and in every result \<open>generate_diff\<close> returns, \<open>has_changes\<close> is
  true exactly when one of the three lists is not empty.
\<close>

theorem has_changes_iff_nonempty:
  "has_changes (compare_versions parse p c u d pd cd) =
     lists_nonempty (compare_versions parse p c u d pd cd) \<and>
   has_changes (all_new_result u d cd arts) = lists_nonempty (all_new_result u d cd arts) \<and>
   (fst (generate_diff parse netloc fs u cd) = Inr (Some r) \<longrightarrow> has_changes r = lists_nonempty r)"
  using generate_diff_result_has_changes[of parse netloc fs u cd r]
  by (simp add: has_changes_compare has_changes_all_new)

text \<open>The second run of the example blog: one new article.\<close>

theorem has_changes_iff_nonempty_witness:
  "fst (generate_diff ex_parse ex_netloc ex_second_run ''https://www.blog.test/'' ''2024-01-02'') =
     Inr (Some (all_new_result ''https://www.blog.test/'' ''blog.test'' ''2024-01-02'' [ex_article]
                  \<lparr>previous_date := Some ''2024-01-01''\<rparr>)) \<and>
   has_changes (all_new_result ''https://www.blog.test/'' ''blog.test'' ''2024-01-02'' [ex_article]
                  \<lparr>previous_date := Some ''2024-01-01''\<rparr>) =
   lists_nonempty (all_new_result ''https://www.blog.test/'' ''blog.test'' ''2024-01-02'' [ex_article]
                  \<lparr>previous_date := Some ''2024-01-01''\<rparr>)"
proof -
  have g: "fst (generate_diff ex_parse ex_netloc ex_second_run ''https://www.blog.test/'' ''2024-01-02'') =
     Inr (Some (all_new_result ''https://www.blog.test/'' ''blog.test'' ''2024-01-02'' [ex_article]
                  \<lparr>previous_date := Some ''2024-01-01''\<rparr>))"
    by code_simp
  from has_changes_iff_nonempty[where parse = ex_parse and netloc = ex_netloc
      and fs = ex_second_run and u = "''https://www.blog.test/''" and cd = "''2024-01-02''"] g
  show ?thesis by blast
qed

text \<open>
  Claim C9, amended. For a blog URL that \<open>urlparse\<close> accepts and a run date whose
  current snapshot does not exist, \<open>generate_diff\<close> returns \<open>None\<close> and leaves the file
  system as it was, and it returns \<open>None\<close> in no other case. Not found is not the only
  condition that reaches the caller: an exception raised by \<open>urlparse\<close>, or by reading
  the current or the previous snapshot, is raised by \<open>generate_diff\<close>, and nothing is
  persisted then either.
\<close>

theorem generate_diff_not_found:
  "(get_domain netloc u = Inr d \<and> \<not> path_exists fs (archive_dir d) (cd @ ''.html'') \<longrightarrow>
      generate_diff parse netloc fs u cd = (Inr None, fs)) \<and>
   (fst (generate_diff parse netloc fs u cd) = Inr None) =
      (\<exists>d'. get_domain netloc u = Inr d' \<and> \<not> path_exists fs (archive_dir d') (cd @ ''.html'')) \<and>
   (get_domain netloc u = Inl e \<longrightarrow> generate_diff parse netloc fs u cd = (Inl e, fs)) \<and>
   (get_domain netloc u = Inr d \<and> path_exists fs (archive_dir d) (cd @ ''.html'') \<and>
    (read_file fs (archive_dir d) (cd @ ''.html'') = Inl e \<or>
     (\<exists>body. read_file fs (archive_dir d) (cd @ ''.html'') = Inr body) \<and>
       get_previous_content netloc fs u = Inl e) \<longrightarrow>
      generate_diff parse netloc fs u cd = (Inl e, fs))"
proof (intro conjI impI)
  assume "get_domain netloc u = Inr d \<and> \<not> path_exists fs (archive_dir d) (cd @ ''.html'')"
  thus "generate_diff parse netloc fs u cd = (Inr None, fs)"
    by (simp add: generate_diff_def Let_def)
next
  show "(fst (generate_diff parse netloc fs u cd) = Inr None) =
      (\<exists>d'. get_domain netloc u = Inr d' \<and> \<not> path_exists fs (archive_dir d') (cd @ ''.html''))"
    by (auto simp: generate_diff_def Let_def split: sum.splits prod.splits)
next
  assume "get_domain netloc u = Inl e"
  thus "generate_diff parse netloc fs u cd = (Inl e, fs)"
    by (simp add: generate_diff_def)
next
  assume "get_domain netloc u = Inr d \<and> path_exists fs (archive_dir d) (cd @ ''.html'') \<and>
    (read_file fs (archive_dir d) (cd @ ''.html'') = Inl e \<or>
     (\<exists>body. read_file fs (archive_dir d) (cd @ ''.html'') = Inr body) \<and>
       get_previous_content netloc fs u = Inl e)"
  thus "generate_diff parse netloc fs u cd = (Inl e, fs)"
    by (auto simp: generate_diff_def Let_def)
qed

text \<open>
  A run date with no snapshot in the archive; a URL that \<open>urlparse\<close> refuses; and an
  archive whose previous entry is a directory.
\<close>

theorem generate_diff_not_found_witness:
  "get_domain ex_netloc ''https://www.blog.test/'' = Inr ''blog.test'' \<and>
   \<not> path_exists ex_first_run (archive_dir ''blog.test'') (''2024-01-05'' @ ''.html'') \<and>
   generate_diff ex_parse ex_netloc ex_first_run ''https://www.blog.test/'' ''2024-01-05'' =
     (Inr None, ex_first_run) \<and>
   get_domain ex_netloc ''http://[::1'' = Inl ValueError \<and>
   generate_diff ex_parse ex_netloc ex_first_run ''http://[::1'' ''2024-01-05'' =
     (Inl ValueError, ex_first_run) \<and>
   path_exists ex_directory_entry (archive_dir ''blog.test'') (''2024-01-02'' @ ''.html'') \<and>
   get_previous_content ex_netloc ex_directory_entry ''https://www.blog.test/'' =
     Inl IsADirectoryError \<and>
   generate_diff ex_parse ex_netloc ex_directory_entry ''https://www.blog.test/'' ''2024-01-02'' =
     (Inl IsADirectoryError, ex_directory_entry)"
proof -
  have g: "get_domain ex_netloc ''https://www.blog.test/'' = Inr ''blog.test''" by code_simp
  have h: "\<not> path_exists ex_first_run (archive_dir ''blog.test'') (''2024-01-05'' @ ''.html'')"
    by code_simp
  have v: "get_domain ex_netloc ''http://[::1'' = Inl ValueError" by code_simp
  have x: "path_exists ex_directory_entry (archive_dir ''blog.test'') (''2024-01-02'' @ ''.html'')"
    by code_simp
  have r: "read_file ex_directory_entry (archive_dir ''blog.test'') (''2024-01-02'' @ ''.html'') =
             Inr ex_markup" by code_simp
  have p: "get_previous_content ex_netloc ex_directory_entry ''https://www.blog.test/'' =
             Inl IsADirectoryError" by code_simp
  from generate_diff_not_found[of ex_netloc "''https://www.blog.test/''" "''blog.test''"
      ex_first_run "''2024-01-05''" ex_parse] g h
  have a: "generate_diff ex_parse ex_netloc ex_first_run ''https://www.blog.test/'' ''2024-01-05'' =
     (Inr None, ex_first_run)" by blast
  from generate_diff_not_found[of ex_netloc "''http://[::1''" _ ex_first_run "''2024-01-05''"
      ex_parse ValueError] v
  have b: "generate_diff ex_parse ex_netloc ex_first_run ''http://[::1'' ''2024-01-05'' =
     (Inl ValueError, ex_first_run)" by blast
  from generate_diff_not_found[of ex_netloc "''https://www.blog.test/''" "''blog.test''"
      ex_directory_entry "''2024-01-02''" ex_parse IsADirectoryError] g x r p
  have c: "generate_diff ex_parse ex_netloc ex_directory_entry ''https://www.blog.test/''
             ''2024-01-02'' = (Inl IsADirectoryError, ex_directory_entry)" by blast
  from g h v x p a b c show ?thesis by blast
qed

text \<open>
  Claim C9 as stated fails twice. For the blog URL \<open>http://[::1\<close> no snapshot exists
  (the archive holds the directory of another blog only), and \<open>generate_diff\<close> does not
  return \<open>None\<close>: it raises \<open>ValueError\<close>. And with the current snapshot in place, a
  previous entry that is a directory makes it raise \<open>IsADirectoryError\<close>, a second
  condition that reaches the caller.
\<close>

theorem generate_diff_raises_counterexample:
  "fst (generate_diff ex_parse ex_netloc ex_first_run ''http://[::1'' ''2024-01-02'') =
     Inl ValueError \<and>
   fst (generate_diff ex_parse ex_netloc ex_first_run ''http://[::1'' ''2024-01-02'') \<noteq> Inr None \<and>
   fst (generate_diff ex_parse ex_netloc ex_directory_entry ''https://www.blog.test/''
          ''2024-01-02'') = Inl IsADirectoryError"
  by code_simp

lemma compare_same: "compare_article_lists xs xs = ([], [], [])"
proof -
  let ?m = "article_map xs"
  have a: "filter (\<lambda>(k, c). map_of ?m k = None) ?m = []"
    by (auto simp: filter_empty_conv map_of_eq_None_iff intro: rev_image_eqI)
  have "distinct (map fst ?m)" using keyed_article_map[of xs] by (simp add: keyed_def)
  hence b: "filter (\<lambda>(k, c). \<exists>p. map_of ?m k = Some p \<and> content c \<noteq> content p) ?m = []"
    by (auto simp: filter_empty_conv dest: eq_key_imp_eq_value)
  show ?thesis
    by (simp add: compare_article_lists_def Let_def find_new_and_changed_eq find_removed_eq a b)
qed

subsection \<open>Content of a container\<close>

lemma descendants_contents:
  "descendants n = concat (map (\<lambda>c. c # descendants c) (node_contents n))"
  by (cases n) simp_all

lemma nodes_of_elements:
  "map node (elements ns after) = concat (map (\<lambda>n. n # descendants n) ns)"
proof (induction ns after rule: elements.induct)
  case (1 after)
  show ?case by simp
next
  case (2 n ns after)
  show ?case
    using 2 by (simp add: Let_def descendants_contents[of n])
qed

lemma find_map_node:
  "map_option f (List.find (\<lambda>x. P (f x)) xs) = List.find P (map f xs)"
  by (induction xs) auto

lemma select_one_node:
  "map_option node (select_one selector e) = List.find (matches selector) (descendants (node e))"
  by (simp add: select_one_def find_map_node nodes_of_elements descendants_contents[of "node e"])

lemma matches_content_selector:
  "matches content_selector d = (matches content_class_selector d \<or> node_name d = Some ''p'')"
  by (cases d) (auto simp: matches_def content_selector_def content_class_selector_def)

lemma content_set_url_from [simp]: "content (set_url_from l a) = content a"
  by (simp add: set_url_from_def split: option.splits)

lemma content_set_date_from [simp]: "content (set_date_from d a) = content a"
  by (simp add: set_date_from_def split: option.splits)

lemma content_of_container:
  assumes "select_one content_selector e = Some ce"
  shows "content (extract_article_data e) = Some (strip (get_text (node ce)))"
  using assms
  by (simp add: extract_article_data_def Let_def empty_article_def split: option.splits)

lemma find_None_mono:
  assumes "List.find P xs = None" and "\<And>x. Q x \<Longrightarrow> P x"
  shows "List.find Q xs = None"
  using assms by (auto simp: find_None_iff)

text \<open>
  Claim C5, amended. In a container, the content is the trimmed text of the first
  element below it, in document order, that has one of the classes content,
  entry-content, description, summary or is a paragraph: a paragraph that comes first
  is used although a later element has such a class. When the container has a
  paragraph, that single element is always found, so the branch joining all paragraphs
  is never taken.
\<close>

theorem container_content_first_match:
  "(List.find (\<lambda>d. matches content_class_selector d \<or> node_name d = Some ''p'')
      (descendants (node e)) = Some d \<longrightarrow>
    content (extract_article_data e) = Some (strip (get_text d))) \<and>
   (find_tag ''p'' (node e) \<noteq> None \<longrightarrow> select_one content_selector e \<noteq> None)"
proof (intro conjI impI)
  assume "List.find (\<lambda>d. matches content_class_selector d \<or> node_name d = Some ''p'')
      (descendants (node e)) = Some d"
  hence "map_option node (select_one content_selector e) = Some d"
    by (simp add: select_one_node matches_content_selector[abs_def])
  then obtain ce where "select_one content_selector e = Some ce" "node ce = d" by auto
  thus "content (extract_article_data e) = Some (strip (get_text d))"
    using content_of_container by simp
next
  assume p: "find_tag ''p'' (node e) \<noteq> None"
  show "select_one content_selector e \<noteq> None"
  proof
    assume "select_one content_selector e = None"
    hence "List.find (matches content_selector) (descendants (node e)) = None"
      using select_one_node[of content_selector e] by simp
    hence "List.find (\<lambda>d. node_name d = Some ''p'') (descendants (node e)) = None"
      by (rule find_None_mono) (simp add: matches_content_selector)
    with p show False by (simp add: find_tag_def)
  qed
qed

text \<open>The example container: its first paragraph is the match, and gives the content.\<close>

theorem container_content_first_match_witness:
  "List.find (\<lambda>d. matches content_class_selector d \<or> node_name d = Some ''p'')
      (descendants (node ex_element)) = Some (Tag ''p'' [] [] [NavigableString '' intro '']) \<and>
   content (extract_article_data ex_element) = Some ''intro'' \<and>
   find_tag ''p'' (node ex_element) \<noteq> None \<and>
   select_one content_selector ex_element \<noteq> None"
proof -
  have f: "List.find (\<lambda>d. matches content_class_selector d \<or> node_name d = Some ''p'')
      (descendants (node ex_element)) = Some (Tag ''p'' [] [] [NavigableString '' intro ''])"
    by code_simp
  have p: "find_tag ''p'' (node ex_element) \<noteq> None" by code_simp
  have s: "strip (get_text (Tag ''p'' [] [] [NavigableString '' intro ''])) = ''intro''"
    by code_simp
  from container_content_first_match[of ex_element "Tag ''p'' [] [] [NavigableString '' intro '']"] f p s
  show ?thesis by simp
qed

text \<open>
  Claim C5 as stated fails on the example container: an element of class \<open>content\<close>
  matches, with text \<open>body\<close>, and the content extracted is the text of the paragraph
  before it.
\<close>

theorem container_content_counterexample:
  "first_class_match_text ex_element = Some ''body'' \<and>
   content (extract_article_data ex_element) = Some ''intro''"
  by code_simp

subsection \<open>Content after a heading\<close>

lemma sibling_paragraphs_eq:
  assumes "\<forall>n \<in> set sibs. truthy n"
  shows "sibling_paragraphs sibs acc =
           acc @ map (\<lambda>p. strip (get_text p))
                   (filter (\<lambda>n. node_name n = Some ''p'')
                      (takeWhile (\<lambda>n. node_name n \<notin> {Some ''h1'', Some ''h2'', Some ''h3'', Some ''h4''})
                         sibs))"
  using assms by (induction sibs arbitrary: acc) auto

text \<open>
  Claim C6, amended. When no following sibling of the heading is an empty string node,
  the content is the newline-joined trimmed text of the paragraphs among the direct
  following siblings of the heading that come before the first following sibling named
  \<open>h1\<close>, \<open>h2\<close>, \<open>h3\<close> or \<open>h4\<close>, whatever the level of the accepted heading; with
  no such paragraph there is no content.
\<close>

theorem sibling_walk_stops_at_any_heading:
  assumes "\<forall>n \<in> set (next_siblings h). truthy n"
  shows "content (extract_article_from_heading h) =
           (let paragraphs =
                  map (\<lambda>p. strip (get_text p))
                    (filter (\<lambda>n. node_name n = Some ''p'')
                       (takeWhile
                          (\<lambda>n. node_name n \<notin> {Some ''h1'', Some ''h2'', Some ''h3'', Some ''h4''})
                          (next_siblings h)))
            in if paragraphs = [] then None else Some (str_join newline paragraphs))"
  using sibling_paragraphs_eq[OF assms, of "[]"]
  by (simp add: extract_article_from_heading_def Let_def empty_article_def)

text \<open>The example heading: the walk ends at the \<open>h3\<close> after the first paragraph.\<close>

theorem sibling_walk_stops_at_any_heading_witness:
  "list_all truthy (next_siblings ex_heading) \<and>
   content (extract_article_from_heading ex_heading) = Some ''first''"
proof -
  have t: "\<forall>n \<in> set (next_siblings ex_heading). truthy n" by code_simp
  have e: "(let paragraphs =
                  map (\<lambda>p. strip (get_text p))
                    (filter (\<lambda>n. node_name n = Some ''p'')
                       (takeWhile
                          (\<lambda>n. node_name n \<notin> {Some ''h1'', Some ''h2'', Some ''h3'', Some ''h4''})
                          (next_siblings ex_heading)))
            in if paragraphs = [] then None else Some (str_join newline paragraphs)) = Some ''first''"
    by code_simp
  from sibling_walk_stops_at_any_heading[OF t] e t show ?thesis
    by (simp add: list_all_iff)
qed

text \<open>
  Claim C6 as stated fails on the example heading, an \<open>h2\<close>: up to the next heading of
  equal or higher level there are two paragraphs, and the content extracted holds the
  first only, because the walk stops at the \<open>h3\<close> between them.
\<close>

theorem sibling_walk_counterexample:
  "heading_level (node ex_heading) = Some 2 \<and>
   spec_sibling_paragraphs 2 (next_siblings ex_heading) = [''first'', ''second''] \<and>
   content (extract_article_from_heading ex_heading) = Some ''first'' \<and>
   content (extract_article_from_heading ex_heading) \<noteq>
     Some (str_join newline (spec_sibling_paragraphs 2 (next_siblings ex_heading)))"
  by code_simp

subsection \<open>The first run for a blog\<close>

lemma endswith_append: "endswith (s @ suffix) suffix"
  by (simp add: endswith_def)

text \<open>
  Claim C4. \<open>get_previous_content\<close> takes \<open>files[0]\<close> when the directory holds one
  snapshot, which is the current one. So when no previous snapshot exists and the
  archive holds the current snapshot only, \<open>generate_diff\<close> does not take the branch
  for no previous content: it compares the snapshot with itself, and the result has
  the current date as previous date, no new article and \<open>has_changes\<close> false,
  whatever the markup holds.
\<close>

theorem first_run_compares_snapshot_with_itself:
  assumes "get_domain netloc u = Inr d"
    and "dirs fs (archive_dir d) = Some [(cd @ ''.html'', Inr markup)]"
  shows "fst (generate_diff parse netloc fs u cd) =
           Inr (Some \<lparr>dr_url = u, domain = d, current_date = cd,
                      previous_date = Some (str_replace ''.html'' [] (cd @ ''.html'')),
                      has_changes = False, new_articles = [], changed_articles = [],
                      removed_articles = []\<rparr>)"
proof -
  have ex: "path_exists fs (archive_dir d) (cd @ ''.html'')"
    by (simp add: path_exists_def assms)
  have rd: "read_file fs (archive_dir d) (cd @ ''.html'') = Inr markup"
    by (simp add: read_file_def assms)
  have pc: "get_previous_content netloc fs u =
              Inr (Some markup, Some (str_replace ''.html'' [] (cd @ ''.html'')))"
    using endswith_append[of cd "''.html''"]
    by (simp add: get_previous_content_def Let_def assms rd)
  show ?thesis
    by (simp add: generate_diff_def Let_def assms(1) ex rd pc compare_versions_def compare_same
        build_diff_result_def)
qed

text \<open>
  The first run of the example blog: the snapshot holds one article, and the result
  reports none.
\<close>

theorem first_run_reports_no_changes:
  "get_domain ex_netloc ''https://www.blog.test/'' = Inr ''blog.test'' \<and>
   dirs ex_first_run (archive_dir ''blog.test'') = Some [(''2024-01-02'' @ ''.html'', Inr ex_markup)] \<and>
   extract_articles ex_parse ex_markup = [ex_article] \<and>
   fst (generate_diff ex_parse ex_netloc ex_first_run ''https://www.blog.test/'' ''2024-01-02'') =
     Inr (Some \<lparr>dr_url = ''https://www.blog.test/'', domain = ''blog.test'',
                current_date = ''2024-01-02'', previous_date = Some ''2024-01-02'',
                has_changes = False, new_articles = [], changed_articles = [],
                removed_articles = []\<rparr>)"
proof -
  have g: "get_domain ex_netloc ''https://www.blog.test/'' = Inr ''blog.test''" by code_simp
  have d: "dirs ex_first_run (archive_dir ''blog.test'') =
     Some [(''2024-01-02'' @ ''.html'', Inr ex_markup)]" by code_simp
  have e: "extract_articles ex_parse ex_markup = [ex_article]" by code_simp
  have r: "str_replace ''.html'' [] (''2024-01-02'' @ ''.html'') = ''2024-01-02''" by code_simp
  from first_run_compares_snapshot_with_itself[OF g d, of ex_parse] g d e r
  show ?thesis by simp
qed

end
